theory Spec2Isabelle
  imports Complex_Main
begin

section \<open>Go library functions used by the exporter\<close>

text \<open>
  A Go string is a sequence of bytes, here a \<open>char list\<close>. The exporter calls
  \<^verbatim>\<open>strings.Split(image, ":")\<close>, \<^verbatim>\<open>strings.Contains(image, "aiforward")\<close> and
  \<^verbatim>\<open>strings.TrimPrefix(name, "/")\<close>. The separator of every \<open>Split\<close> call in the
  program is a single byte, so \<open>strings_Split\<close> takes a character: it cuts the string at
  every occurrence of the separator and returns all the pieces, the empty ones too; a
  string without the separator comes back as the only piece.
\<close>

fun strings_Split :: "string \<Rightarrow> char \<Rightarrow> string list" where
  "strings_Split [] sep = [[]]"
| "strings_Split (x # xs) sep =
     (if x = sep then [] # strings_Split xs sep
      else (case strings_Split xs sep of
              [] \<Rightarrow> [[x]]
            | w # ws \<Rightarrow> (x # w) # ws))"

definition strings_HasPrefix :: "string \<Rightarrow> string \<Rightarrow> bool" where
  "strings_HasPrefix s pre = (length pre \<le> length s \<and> take (length pre) s = pre)"

fun strings_Contains :: "string \<Rightarrow> string \<Rightarrow> bool" where
  "strings_Contains [] substr = (substr = [])"
| "strings_Contains (x # xs) substr =
     (strings_HasPrefix (x # xs) substr \<or> strings_Contains xs substr)"

definition strings_TrimPrefix :: "string \<Rightarrow> string \<Rightarrow> string" where
  "strings_TrimPrefix s pre = (if strings_HasPrefix s pre then drop (length pre) s else s)"

text \<open>
  Indexing a Go slice panics when the index is out of range; a map index expression
  never panics: a missing key gives the zero value, and the two-result form also says
  whether the key was there.
\<close>

datatype panic =
    IndexOutOfRange nat nat
  | InconsistentLabelCardinality nat nat

definition slice_index :: "'a list \<Rightarrow> nat \<Rightarrow> panic + 'a" where
  "slice_index xs i = (if i < length xs then Inr (xs ! i) else Inl (IndexOutOfRange i (length xs)))"

definition map_index2 :: "(string \<rightharpoonup> real) \<Rightarrow> string \<Rightarrow> real \<times> bool" where
  "map_index2 m k = (case m k of Some v \<Rightarrow> (v, True) | None \<Rightarrow> (0, False))"

definition map_index :: "(string \<rightharpoonup> real) \<Rightarrow> string \<Rightarrow> real" where
  "map_index m k = fst (map_index2 m k)"

section \<open>State Mapper\<close>

text \<open>
  The state names and their values are untyped Go constants; the values become
  \<open>float64\<close> entries of \<open>ContainerStatusMap\<close>. No arithmetic is ever done on them:
  they are stored, looked up and emitted, so they are modelled by the real numbers the
  constants denote. The package never assigns to \<open>ContainerStatusMap\<close> after its
  initialisation, so it is a constant here.
\<close>

definition CREATED :: string where "CREATED = ''created''"
definition RESTARTING :: string where "RESTARTING = ''restarting''"
definition EXITED :: string where "EXITED = ''exited''"
definition RUNNING :: string where "RUNNING = ''running''"
definition UNKNOW :: string where "UNKNOW = ''noknow''"

definition UNKNOWStateValue :: real where "UNKNOWStateValue = 1 / 10"
definition CreatedStateValue :: real where "CreatedStateValue = 2 / 10"
definition RestartingStateValue :: real where "RestartingStateValue = 4 / 10"
definition ExitedStateValue :: real where "ExitedStateValue = 6 / 10"
definition RunningStateValue :: real where "RunningStateValue = 1"

definition ContainerStatusMap :: "string \<rightharpoonup> real" where
  "ContainerStatusMap = map_of
     [(CREATED, CreatedStateValue),
      (RESTARTING, RestartingStateValue),
      (EXITED, ExitedStateValue),
      (RUNNING, RunningStateValue),
      (UNKNOW, UNKNOWStateValue)]"

definition GetContainerStateValue :: "string \<Rightarrow> real" where
  "GetContainerStateValue state =
     (case map_index2 ContainerStatusMap state of
        (v, ok) \<Rightarrow> if ok then v else map_index ContainerStatusMap UNKNOW)"

section \<open>Version Extractor\<close>

text \<open>
  \<open>GetContainerVersion\<close> is the same in both variants of the program. The named
  result \<open>version\<close> starts as the empty string. (The parameter \<open>image\<close> of the
  source is \<open>img\<close> here: \<open>image\<close> is a constant of HOL.)
\<close>

definition GetContainerVersion :: "string \<Rightarrow> string" where
  "GetContainerVersion img =
     (let split = strings_Split img (CHR '':'')
      in if length split > 1 \<and> strings_Contains img ''aiforward''
         then split ! 1 else [])"

text \<open>
  The reading of the Version Extractor in the specification, kept apart from the code's:
  cut the reference at its last \<open>:\<close> into repository and tag; no separator, or a
  repository without the marker, gives the empty string; otherwise the tag.
\<close>

definition spec_repository :: "string \<Rightarrow> string" where
  "spec_repository ref = rev (tl (dropWhile (\<lambda>c. c \<noteq> CHR '':'') (rev ref)))"

definition spec_tag :: "string \<Rightarrow> string" where
  "spec_tag ref = rev (takeWhile (\<lambda>c. c \<noteq> CHR '':'') (rev ref))"

definition spec_GetContainerVersion :: "string \<Rightarrow> string" where
  "spec_GetContainerVersion ref =
     (if CHR '':'' \<notin> set ref then []
      else if \<not> strings_Contains (spec_repository ref) ''aiforward'' then []
      else spec_tag ref)"

section \<open>Container records, descriptors and samples\<close>

text \<open>
  \<open>types.Container\<close> of the Docker client has more fields; these are the ones the
  exporter reads. \<open>Names\<close> is a slice and may be empty.
\<close>

record Container =
  ID :: string
  Names :: "string list"
  Image :: string
  Status :: string
  State :: string

datatype ValueType = CounterValue | GaugeValue | UntypedValue

record Desc =
  fqName :: string
  helpText :: string
  variableLabels :: "string list"

record Metric =
  desc :: Desc
  valType :: ValueType
  val :: real
  labelValues :: "string list"

definition NewDesc :: "string \<Rightarrow> string \<Rightarrow> string list \<Rightarrow> Desc" where
  "NewDesc name hlp labels = \<lparr>fqName = name, helpText = hlp, variableLabels = labels\<rparr>"

text \<open>
  \<open>prometheus.MustNewConstMetric\<close> panics when the number of label values is not the
  number of label names of the descriptor. (It also rejects label values that are not
  valid UTF-8; the records come out of Go's JSON decoder, which only produces valid
  UTF-8, and cutting at the ASCII bytes \<open>:\<close> and \<open>/\<close> keeps it valid, so that check
  is left out.)
\<close>

definition MustNewConstMetric ::
  "Desc \<Rightarrow> ValueType \<Rightarrow> real \<Rightarrow> string list \<Rightarrow> panic + Metric" where
  "MustNewConstMetric d vt v lvs =
     (if length lvs \<noteq> length (variableLabels d)
      then Inl (InconsistentLabelCardinality (length (variableLabels d)) (length lvs))
      else Inr \<lparr>desc = d, valType = vt, val = v, labelValues = lvs\<rparr>)"

record Exporter =
  queryDockerStatus :: Desc

definition NewExporter :: Exporter where
  "NewExporter =
     \<lparr>queryDockerStatus =
        NewDesc ''container_run_state'' ''query container status ''
          [''name'', ''id'', ''image'', ''status'', ''state'', ''version'']\<rparr>"

section \<open>Runtime Gateway\<close>

text \<open>
  \<open>ContainerList\<close> of the Docker client returns a pair: a slice of containers and an
  error (\<open>None\<close> for \<open>nil\<close>). The client is outside the program, so what it returns
  at a call is an input of the model. The program writes to the standard logger; the
  lines written are kept in a list.
\<close>

datatype error = Error string

type_synonym ListResult = "Container list \<times> error option"

datatype LogLine =
    ConnectErr error
  | Println Container

text \<open>
  The program comes in two variants. In the started-once variant (the one with
  \<open>InitDockerConnect\<close> and \<open>GetContainerStateValue\<close>) the client is made once, at
  start-up. Its \<open>GetContainerList\<close> assigns what the client returned to the named
  result \<open>containerList\<close>, whatever the error is; on an error the line is logged and
  the bare \<open>return\<close> hands the named result back.
\<close>

definition GetContainerList :: "ListResult \<Rightarrow> LogLine list \<Rightarrow> Container list \<times> LogLine list" where
  "GetContainerList r lg =
     (case r of (containerList, err) \<Rightarrow>
        (case err of
           Some e \<Rightarrow> (containerList, lg @ [ConnectErr e])
         | None \<Rightarrow> (containerList, lg)))"

text \<open>
  The variant of \<open>main.go\<close> makes a client at every call: the first component of its
  input is the error of \<open>NewClientWithOpts\<close>. When that fails the named result is still
  the nil slice and the list call is not made.
\<close>

definition GetContainerList_main ::
  "error option \<times> ListResult \<Rightarrow> LogLine list \<Rightarrow> Container list \<times> LogLine list" where
  "GetContainerList_main r lg =
     (case r of (cerr, lr) \<Rightarrow>
        (case cerr of
           Some e \<Rightarrow> ([], lg @ [ConnectErr e])
         | None \<Rightarrow>
            (case lr of (containerList, err) \<Rightarrow>
               (case err of
                  Some e \<Rightarrow> (containerList, lg @ [ConnectErr e])
                | None \<Rightarrow> (containerList, lg)))))"

section \<open>Collector\<close>

text \<open>
  A collection pass sends its samples on the channel \<open>ch\<close> one by one and may write
  log lines: \<open>sent\<close> is what has been sent on the channel so far, \<open>logged\<close> what has
  been logged. A pass either returns or panics; what was sent before a panic stays sent.
\<close>

record World =
  sent :: "Metric list"
  logged :: "LogLine list"

datatype outcome = Returned | Panicked panic

text \<open>The body of the \<open>range\<close> loop of \<open>Collect\<close>, for one container.\<close>

definition Collect_body :: "Exporter \<Rightarrow> Container \<Rightarrow> panic + Metric" where
  "Collect_body e info =
     (case slice_index (Names info) 0 of
        Inl p \<Rightarrow> Inl p
      | Inr name0 \<Rightarrow>
          MustNewConstMetric (queryDockerStatus e) GaugeValue
            (GetContainerStateValue (State info))
            [strings_TrimPrefix name0 ''/'', ID info, Image info, Status info, State info,
             GetContainerVersion (Image info)])"

fun Collect_range :: "Exporter \<Rightarrow> Container list \<Rightarrow> World \<Rightarrow> World \<times> outcome" where
  "Collect_range e [] w = (w, Returned)"
| "Collect_range e (info # rest) w =
     (case Collect_body e info of
        Inl p \<Rightarrow> (w, Panicked p)
      | Inr m \<Rightarrow> Collect_range e rest (w\<lparr>sent := sent w @ [m]\<rparr>))"

text \<open>
  The method \<open>Collect\<close> of \<open>Exporter\<close> (\<open>Collect\<close> alone is the set comprehension
  of HOL). It asks the gateway for the list and runs the loop over it.
\<close>

definition Exporter_Collect :: "Exporter \<Rightarrow> ListResult \<Rightarrow> World \<Rightarrow> World \<times> outcome" where
  "Exporter_Collect e r w =
     (case GetContainerList r (logged w) of
        (containerList, lg) \<Rightarrow> Collect_range e containerList (w\<lparr>logged := lg\<rparr>))"

text \<open>
  The variant of \<open>main.go\<close>: each record is logged first, and the value of every sample
  is the constant 0.
\<close>

definition Collect_body_main :: "Exporter \<Rightarrow> Container \<Rightarrow> panic + Metric" where
  "Collect_body_main e info =
     (case slice_index (Names info) 0 of
        Inl p \<Rightarrow> Inl p
      | Inr name0 \<Rightarrow>
          MustNewConstMetric (queryDockerStatus e) GaugeValue 0
            [strings_TrimPrefix name0 ''/'', ID info, Image info, Status info, State info,
             GetContainerVersion (Image info)])"

fun Collect_range_main :: "Exporter \<Rightarrow> Container list \<Rightarrow> World \<Rightarrow> World \<times> outcome" where
  "Collect_range_main e [] w = (w, Returned)"
| "Collect_range_main e (info # rest) w =
     (let w1 = w\<lparr>logged := logged w @ [Println info]\<rparr>
      in case Collect_body_main e info of
           Inl p \<Rightarrow> (w1, Panicked p)
         | Inr m \<Rightarrow> Collect_range_main e rest (w1\<lparr>sent := sent w1 @ [m]\<rparr>))"

definition Exporter_Collect_main ::
  "Exporter \<Rightarrow> error option \<times> ListResult \<Rightarrow> World \<Rightarrow> World \<times> outcome" where
  "Exporter_Collect_main e r w =
     (case GetContainerList_main r (logged w) of
        (containerList, lg) \<Rightarrow> Collect_range_main e containerList (w\<lparr>logged := lg\<rparr>))"

text \<open>
  The samples of one pass are what the pass added to the channel: the part of \<open>sent\<close>
  after the pass that was not there before it.
\<close>

definition pass_samples :: "World \<Rightarrow> World \<Rightarrow> Metric list" where
  "pass_samples w w' = drop (length (sent w)) (sent w')"

text \<open>
  What the loop of the started-once variant sends, and how it ends, as functions of the
  exporter and the list alone: the samples of the records before the first one whose
  body panics, and that panic, if any. The loop is proved equal to them below.
\<close>

fun range_samples :: "Exporter \<Rightarrow> Container list \<Rightarrow> Metric list" where
  "range_samples e [] = []"
| "range_samples e (info # rest) =
     (case Collect_body e info of Inl p \<Rightarrow> [] | Inr m \<Rightarrow> m # range_samples e rest)"

fun range_outcome :: "Exporter \<Rightarrow> Container list \<Rightarrow> outcome" where
  "range_outcome e [] = Returned"
| "range_outcome e (info # rest) =
     (case Collect_body e info of Inl p \<Rightarrow> Panicked p | Inr m \<Rightarrow> range_outcome e rest)"

section \<open>Example records\<close>

text \<open>
  Concrete records, and the samples the started-once variant makes of them, for the
  evaluations below. The third record has no declared name.
\<close>

abbreviation web_container :: Container where
  "web_container \<equiv>
     \<lparr>ID = ''4f2a'', Names = [''/my-container''], Image = ''org/aiforward-service:v2.3'',
      Status = ''Up 2 hours'', State = ''running''\<rparr>"

abbreviation db_container :: Container where
  "db_container \<equiv>
     \<lparr>ID = ''77e0'', Names = [''my-container'', ''/alias''], Image = ''postgres'',
      Status = ''Exited (0) 3 days ago'', State = ''exited''\<rparr>"

abbreviation nameless_container :: Container where
  "nameless_container \<equiv>
     \<lparr>ID = ''9b1c'', Names = [], Image = ''nginx'',
      Status = ''Removal In Progress'', State = ''removing''\<rparr>"

abbreviation web_sample :: Metric where
  "web_sample \<equiv>
     \<lparr>desc = queryDockerStatus NewExporter, valType = GaugeValue, val = 1,
      labelValues = [''my-container'', ''4f2a'', ''org/aiforward-service:v2.3'',
                     ''Up 2 hours'', ''running'', ''v2.3'']\<rparr>"

abbreviation db_sample :: Metric where
  "db_sample \<equiv>
     \<lparr>desc = queryDockerStatus NewExporter, valType = GaugeValue, val = 0.6,
      labelValues = [''my-container'', ''77e0'', ''postgres'',
                     ''Exited (0) 3 days ago'', ''exited'', '''']\<rparr>"

abbreviation empty_world :: World where
  "empty_world \<equiv> \<lparr>sent = [], logged = []\<rparr>"

section \<open>Properties of the State Mapper\<close>

lemmas state_consts =
  CREATED_def RESTARTING_def EXITED_def RUNNING_def UNKNOW_def
  UNKNOWStateValue_def CreatedStateValue_def RestartingStateValue_def
  ExitedStateValue_def RunningStateValue_def

lemma ContainerStatusMap_unfold:
  "ContainerStatusMap s =
     (if s = ''created'' then Some (2 / 10)
      else if s = ''restarting'' then Some (4 / 10)
      else if s = ''exited'' then Some (6 / 10)
      else if s = ''running'' then Some 1
      else if s = ''noknow'' then Some (1 / 10)
      else None)"
  unfolding ContainerStatusMap_def state_consts by simp

lemma GetContainerStateValue_unfold:
  "GetContainerStateValue s =
     (if s = ''created'' then 2 / 10
      else if s = ''restarting'' then 4 / 10
      else if s = ''exited'' then 6 / 10
      else if s = ''running'' then 1
      else 1 / 10)"
  unfolding GetContainerStateValue_def map_index2_def map_index_def
    ContainerStatusMap_unfold UNKNOW_def
  by simp

text \<open>
  C1. The State Mapper returns exactly the documented ordinal for each recognised state
  (\<open>created\<close> 0.2, \<open>restarting\<close> 0.4, \<open>exited\<close> 0.6, \<open>running\<close> 1.0), and the
  unknown ordinal 0.1 for every other string, the empty string and the state name
  \<open>unknown\<close> among them. The fallback cannot fail: the function is total, and the
  key it falls back to is present in the map.
\<close>

theorem GetContainerStateValue_documented_ordinals:
  "GetContainerStateValue ''created'' = 0.2 \<and>
   GetContainerStateValue ''restarting'' = 0.4 \<and>
   GetContainerStateValue ''exited'' = 0.6 \<and>
   GetContainerStateValue ''running'' = 1.0 \<and>
   (\<forall>s. s \<notin> {''created'', ''restarting'', ''exited'', ''running''} \<longrightarrow>
        GetContainerStateValue s = UNKNOWStateValue) \<and>
   GetContainerStateValue '''' = UNKNOWStateValue \<and>
   GetContainerStateValue ''unknown'' = UNKNOWStateValue \<and>
   UNKNOWStateValue = 0.1 \<and>
   map_index2 ContainerStatusMap UNKNOW = (0.1, True)"
  by (simp add: GetContainerStateValue_unfold UNKNOWStateValue_def map_index2_def
      ContainerStatusMap_unfold UNKNOW_def)

theorem GetContainerStateValue_documented_ordinals_witness:
  "''paused'' \<notin> {''created'', ''restarting'', ''exited'', ''running''} \<and>
   GetContainerStateValue ''paused'' = UNKNOWStateValue"
  using GetContainerStateValue_documented_ordinals by simp

text \<open>
  C6. Every ordinal the State Mapper returns lies in the interval (0, 1], and the unknown
  ordinal is strictly below the ordinal of each recognised state, so that \<open>unknown\<close>
  sorts below every known state, \<open>exited\<close> included; no state gets less than the
  unknown ordinal.
\<close>

theorem GetContainerStateValue_range_and_order:
  "(\<forall>s. 0 < GetContainerStateValue s \<and> GetContainerStateValue s \<le> 1) \<and>
   UNKNOWStateValue = 0.1 \<and>
   UNKNOWStateValue < GetContainerStateValue ''created'' \<and>
   UNKNOWStateValue < GetContainerStateValue ''restarting'' \<and>
   UNKNOWStateValue < GetContainerStateValue ''exited'' \<and>
   UNKNOWStateValue < GetContainerStateValue ''running'' \<and>
   GetContainerStateValue ''unknown'' < GetContainerStateValue ''exited'' \<and>
   (\<forall>s. UNKNOWStateValue \<le> GetContainerStateValue s)"
  by (simp add: GetContainerStateValue_unfold UNKNOWStateValue_def)

section \<open>Properties of the Version Extractor\<close>

lemma strings_Split_not_Nil: "strings_Split s sep \<noteq> []"
  by (induction s) (auto split: list.splits)

lemma length_strings_Split: "length (strings_Split s sep) = Suc (count_list s sep)"
  by (induction s) (auto split: list.splits simp: strings_Split_not_Nil)

lemma strings_Split_many_iff: "Suc 0 < length (strings_Split s sep) \<longleftrightarrow> sep \<in> set s"
  using count_list_0_iff [of s sep] by (auto simp: length_strings_Split)

lemma hd_strings_Split: "hd (strings_Split s sep) = takeWhile (\<lambda>c. c \<noteq> sep) s"
  by (induction s) (auto split: list.splits simp: strings_Split_not_Nil)

lemma tl_strings_Split:
  "sep \<in> set s \<Longrightarrow>
   tl (strings_Split s sep) = strings_Split (tl (dropWhile (\<lambda>c. c \<noteq> sep) s)) sep"
  by (induction s) (auto split: list.splits simp: strings_Split_not_Nil)

lemma strings_Split_second:
  assumes "sep \<in> set s"
  shows "strings_Split s sep ! Suc 0 =
         takeWhile (\<lambda>c. c \<noteq> sep) (tl (dropWhile (\<lambda>c. c \<noteq> sep) s))"
proof -
  have "Suc 0 < length (strings_Split s sep)"
    using assms by (simp add: strings_Split_many_iff)
  then have "strings_Split s sep ! Suc 0 = hd (tl (strings_Split s sep))"
    by (cases "strings_Split s sep") (auto simp: hd_conv_nth)
  then show ?thesis
    using assms by (simp add: tl_strings_Split hd_strings_Split)
qed

lemma strings_HasPrefix_iff: "strings_HasPrefix s pre \<longleftrightarrow> (\<exists>q. s = pre @ q)"
  unfolding strings_HasPrefix_def
  by (metis append_eq_conv_conj append_take_drop_id length_append le_add1)

lemma strings_Contains_iff: "strings_Contains s sub \<longleftrightarrow> (\<exists>p q. s = p @ sub @ q)"
proof (induction s)
  case Nil
  then show ?case by auto
next
  case (Cons x xs)
  show ?case
  proof
    assume "strings_Contains (x # xs) sub"
    then consider "strings_HasPrefix (x # xs) sub" | "strings_Contains xs sub" by auto
    then show "\<exists>p q. x # xs = p @ sub @ q"
    proof cases
      case 1
      then obtain q where "x # xs = sub @ q" by (auto simp: strings_HasPrefix_iff)
      then have "x # xs = [] @ sub @ q" by simp
      then show ?thesis by blast
    next
      case 2
      then obtain p q where "xs = p @ sub @ q" using Cons.IH by auto
      then have "x # xs = (x # p) @ sub @ q" by simp
      then show ?thesis by blast
    qed
  next
    assume "\<exists>p q. x # xs = p @ sub @ q"
    then obtain p q where pq: "x # xs = p @ sub @ q" by blast
    show "strings_Contains (x # xs) sub"
    proof (cases p)
      case Nil
      with pq have "strings_HasPrefix (x # xs) sub" by (auto simp: strings_HasPrefix_iff)
      then show ?thesis by simp
    next
      case (Cons y ys)
      with pq have "xs = ys @ sub @ q" by simp
      then have "strings_Contains xs sub" using Cons.IH by blast
      then show ?thesis by simp
    qed
  qed
qed

text \<open>
  C10. The three documented test vectors of the Version Extractor: a marked reference
  with a tag gives the tag, an unmarked one gives the empty string, and a marked
  reference without a colon gives the empty string.
\<close>

theorem GetContainerVersion_test_vectors:
  "GetContainerVersion ''org/aiforward-service:v2.3'' = ''v2.3'' \<and>
   GetContainerVersion ''org/other-service:v2.3'' = '''' \<and>
   GetContainerVersion ''org/aiforward-service'' = ''''"
  by (simp add: GetContainerVersion_def strings_HasPrefix_def)

lemma one_separator_split:
  assumes "count_list s c = 1"
  shows "\<exists>a b. s = a @ c # b \<and> c \<notin> set a \<and> c \<notin> set b"
proof -
  from assms have "c \<in> set s"
    using count_list_0_iff [of s c] by auto
  then obtain a b where s: "s = a @ c # b" and a: "c \<notin> set a"
    by (auto dest: split_list_first)
  from assms s have "count_list b c = 0" by simp
  then have "c \<notin> set b" by (simp add: count_list_0_iff)
  with s a show ?thesis by blast
qed

lemma second_piece_is_tag:
  assumes "count_list ref (CHR '':'') = 1"
  shows "takeWhile (\<lambda>c. c \<noteq> CHR '':'') (tl (dropWhile (\<lambda>c. c \<noteq> CHR '':'') ref)) = spec_tag ref"
proof -
  from one_separator_split [OF assms] obtain a b
    where s: "ref = a @ CHR '':'' # b" and a: "CHR '':'' \<notin> set a" and b: "CHR '':'' \<notin> set b"
    by blast
  have "dropWhile (\<lambda>c. c \<noteq> CHR '':'') ref = CHR '':'' # b"
    using a by (auto simp: s dropWhile_append3)
  then have l: "takeWhile (\<lambda>c. c \<noteq> CHR '':'') (tl (dropWhile (\<lambda>c. c \<noteq> CHR '':'') ref)) = b"
    using b by (auto simp: takeWhile_eq_all_conv)
  have "takeWhile (\<lambda>c. c \<noteq> CHR '':'') (rev b @ CHR '':'' # rev a) =
        rev b @ takeWhile (\<lambda>c. c \<noteq> CHR '':'') (CHR '':'' # rev a)"
    using b by (intro takeWhile_append2) auto
  then have "takeWhile (\<lambda>c. c \<noteq> CHR '':'') (rev ref) = rev b"
    by (simp add: s)
  then have "spec_tag ref = b" by (simp add: spec_tag_def)
  with l show ?thesis by simp
qed

text \<open>
  C2, as the code has it. The Version Extractor cuts the reference at every \<open>:\<close>. It
  returns the empty string when the reference has no \<open>:\<close> or when the whole reference
  (repository and tag alike) does not contain \<open>aiforward\<close>; otherwise it returns the
  second piece: the text between the first \<open>:\<close> and the next \<open>:\<close>, or the end of
  the reference when there is no other. In a reference with exactly one \<open>:\<close> the second
  piece is the tag.
\<close>

theorem GetContainerVersion_second_piece:
  "GetContainerVersion ref =
     (if CHR '':'' \<in> set ref \<and> (\<exists>p q. ref = p @ ''aiforward'' @ q)
      then takeWhile (\<lambda>c. c \<noteq> CHR '':'') (tl (dropWhile (\<lambda>c. c \<noteq> CHR '':'') ref))
      else []) \<and>
   (count_list ref (CHR '':'') = 1 \<longrightarrow>
      takeWhile (\<lambda>c. c \<noteq> CHR '':'') (tl (dropWhile (\<lambda>c. c \<noteq> CHR '':'') ref)) =
        spec_tag ref)"
proof (intro conjI impI)
  have code: "GetContainerVersion ref =
     (if CHR '':'' \<in> set ref \<and> strings_Contains ref ''aiforward''
      then takeWhile (\<lambda>c. c \<noteq> CHR '':'') (tl (dropWhile (\<lambda>c. c \<noteq> CHR '':'') ref))
      else [])"
    by (simp add: GetContainerVersion_def strings_Split_many_iff strings_Split_second)
  show "GetContainerVersion ref =
     (if CHR '':'' \<in> set ref \<and> (\<exists>p q. ref = p @ ''aiforward'' @ q)
      then takeWhile (\<lambda>c. c \<noteq> CHR '':'') (tl (dropWhile (\<lambda>c. c \<noteq> CHR '':'') ref))
      else [])"
    unfolding code strings_Contains_iff by (rule refl)
next
  assume "count_list ref (CHR '':'') = 1"
  then show "takeWhile (\<lambda>c. c \<noteq> CHR '':'') (tl (dropWhile (\<lambda>c. c \<noteq> CHR '':'') ref)) =
        spec_tag ref"
    by (rule second_piece_is_tag)
qed

theorem GetContainerVersion_second_piece_witness:
  "count_list ''org/aiforward-service:v2.3'' (CHR '':'') = 1 \<and>
   GetContainerVersion ''org/aiforward-service:v2.3'' = ''v2.3'' \<and>
   spec_tag ''org/aiforward-service:v2.3'' = ''v2.3''"
  using GetContainerVersion_second_piece [of "''org/aiforward-service:v2.3''"]
  by (simp add: spec_tag_def GetContainerVersion_def strings_HasPrefix_def)

text \<open>
  C2 as the specification words it (cut at the last \<open>:\<close>, marker looked for in
  the repository part only) fails on a reference with a registry port, where the code
  returns the text after the first \<open>:\<close> and not the tag, and on a reference whose
  marker is in the tag only, where the code returns the tag and not the empty string.
\<close>

theorem GetContainerVersion_last_colon_counterexample:
  "GetContainerVersion ''reg:5000/aiforward-svc:v2'' = ''5000/aiforward-svc'' \<and>
   spec_GetContainerVersion ''reg:5000/aiforward-svc:v2'' = ''v2'' \<and>
   GetContainerVersion ''reg:5000/aiforward-svc:v2'' \<noteq>
     spec_GetContainerVersion ''reg:5000/aiforward-svc:v2'' \<and>
   GetContainerVersion ''org/svc:aiforward'' = ''aiforward'' \<and>
   spec_GetContainerVersion ''org/svc:aiforward'' = '''' \<and>
   GetContainerVersion ''org/svc:aiforward'' \<noteq> spec_GetContainerVersion ''org/svc:aiforward''"
  by (simp add: GetContainerVersion_def spec_GetContainerVersion_def spec_repository_def
      spec_tag_def strings_HasPrefix_def)

section \<open>Properties of the Collector\<close>

subsection \<open>The loop in closed form\<close>

lemma Collect_range_eq:
  "Collect_range e cs w = (w\<lparr>sent := sent w @ range_samples e cs\<rparr>, range_outcome e cs)"
proof (induction cs arbitrary: w)
  case Nil
  show ?case by simp
next
  case (Cons info rest)
  show ?case
  proof (cases "Collect_body e info")
    case (Inl p)
    then show ?thesis by simp
  next
    case (Inr m)
    then show ?thesis by (simp add: Cons.IH)
  qed
qed

lemma Collect_eq:
  "Exporter_Collect e r w =
     (w\<lparr>sent := sent w @ range_samples e (fst r),
        logged := snd (GetContainerList r (logged w))\<rparr>,
      range_outcome e (fst r))"
  by (cases r; cases "snd r")
     (auto simp: Exporter_Collect_def GetContainerList_def Collect_range_eq)

lemma pass_samples_Collect:
  "Exporter_Collect e r w = (w', oc) \<Longrightarrow> pass_samples w w' = range_samples e (fst r)"
  by (auto simp: Collect_eq pass_samples_def)

lemma pass_samples_Collect_fst:
  "pass_samples w (fst (Exporter_Collect e r w)) = range_samples e (fst r)"
  by (simp add: Collect_eq pass_samples_def)

lemma outcome_Collect:
  "Exporter_Collect e r w = (w', oc) \<Longrightarrow> oc = range_outcome e (fst r)"
  by (auto simp: Collect_eq)

lemma range_samples_nth:
  "i < length (range_samples e cs) \<Longrightarrow>
   i < length cs \<and> Collect_body e (cs ! i) = Inr (range_samples e cs ! i)"
proof (induction cs arbitrary: i)
  case Nil
  then show ?case by simp
next
  case (Cons info rest)
  then obtain m where m: "Collect_body e info = Inr m"
    by (cases "Collect_body e info") auto
  show ?case
  proof (cases i)
    case 0
    with m show ?thesis by simp
  next
    case (Suc j)
    with Cons.prems m have "j < length (range_samples e rest)" by simp
    from Cons.IH [OF this] Suc m show ?thesis by simp
  qed
qed

lemma range_samples_all:
  "(\<And>c. c \<in> set cs \<Longrightarrow> \<exists>m. Collect_body e c = Inr m) \<Longrightarrow>
   length (range_samples e cs) = length cs \<and> range_outcome e cs = Returned"
proof (induction cs)
  case Nil
  show ?case by simp
next
  case (Cons info rest)
  then obtain m where m: "Collect_body e info = Inr m" by (meson list.set_intros(1))
  with Cons show ?case by simp
qed

lemma Collect_body_NewExporter:
  "Collect_body NewExporter info =
     (case Names info of
        [] \<Rightarrow> Inl (IndexOutOfRange 0 0)
      | name0 # _ \<Rightarrow>
          Inr \<lparr>desc = queryDockerStatus NewExporter, valType = GaugeValue,
               val = GetContainerStateValue (State info),
               labelValues =
                 [strings_TrimPrefix name0 ''/'', ID info, Image info, Status info,
                  State info, GetContainerVersion (Image info)]\<rparr>)"
  by (simp add: Collect_body_def slice_index_def MustNewConstMetric_def NewExporter_def
      NewDesc_def split: list.splits)

lemma Collect_body_val:
  "Collect_body e info = Inr m \<Longrightarrow> val m = GetContainerStateValue (State info)"
  by (auto simp: Collect_body_def MustNewConstMetric_def split: sum.splits if_splits)

lemma strings_TrimPrefix_slash:
  "strings_TrimPrefix s ''/'' =
     (case s of [] \<Rightarrow> [] | c # rest \<Rightarrow> if c = CHR ''/'' then rest else s)"
  by (cases s) (auto simp: strings_TrimPrefix_def strings_HasPrefix_def)

text \<open>
  With the exporter the program registers, a pass over records that all have a declared
  name returns, and sends one sample per record, the sample of the \<open>i\<close>-th record at
  position \<open>i\<close>.
\<close>

lemma Collect_one_sample_per_record:
  assumes names: "\<forall>c \<in> set (fst r). Names c \<noteq> []"
    and run: "Exporter_Collect NewExporter r w = (w', oc)"
  shows "oc = Returned \<and> length (pass_samples w w') = length (fst r) \<and>
         (\<forall>i < length (fst r).
            Collect_body NewExporter (fst r ! i) = Inr (pass_samples w w' ! i))"
proof -
  have ok: "\<exists>m. Collect_body NewExporter c = Inr m" if "c \<in> set (fst r)" for c
    using names that by (cases "Names c") (auto simp: Collect_body_NewExporter)
  have all: "length (range_samples NewExporter (fst r)) = length (fst r) \<and>
             range_outcome NewExporter (fst r) = Returned"
    using ok by (rule range_samples_all)
  have ps: "pass_samples w w' = range_samples NewExporter (fst r)"
    using run by (rule pass_samples_Collect)
  have oc: "oc = range_outcome NewExporter (fst r)"
    using run by (rule outcome_Collect)
  show ?thesis
    using all range_samples_nth [of _ NewExporter "fst r"] by (simp add: ps oc)
qed

lemma GetContainerVersion_no_colon:
  "CHR '':'' \<notin> set ref \<Longrightarrow> GetContainerVersion ref = []"
  by (simp add: GetContainerVersion_def strings_Split_many_iff)

subsection \<open>The variant of main.go against the started-once variant\<close>

lemma Collect_body_main_eq:
  "Collect_body_main e info =
     (case Collect_body e info of Inl p \<Rightarrow> Inl p | Inr m \<Rightarrow> Inr (m\<lparr>val := 0\<rparr>))"
  by (simp add: Collect_body_main_def Collect_body_def MustNewConstMetric_def
      split: sum.splits)

lemma Collect_range_main_eq:
  "sent (fst (Collect_range_main e cs w)) =
     sent w @ map (\<lambda>m. m\<lparr>val := 0\<rparr>) (range_samples e cs) \<and>
   snd (Collect_range_main e cs w) = range_outcome e cs"
proof (induction cs arbitrary: w)
  case Nil
  show ?case by simp
next
  case (Cons info rest)
  show ?case
  proof (cases "Collect_body e info")
    case (Inl p)
    then show ?thesis by (simp add: Collect_body_main_eq Let_def)
  next
    case (Inr m)
    then show ?thesis by (simp add: Collect_body_main_eq Let_def Cons.IH)
  qed
qed

lemma Collect_main_eq:
  assumes run: "Exporter_Collect_main e (None, r) w = (w', oc)"
  shows "pass_samples w w' = map (\<lambda>m. m\<lparr>val := 0\<rparr>) (range_samples e (fst r)) \<and>
         oc = range_outcome e (fst r)"
proof -
  obtain cs err where r: "r = (cs, err)" by (cases r)
  have "GetContainerList_main (None, r) (logged w) = (cs, snd (GetContainerList r (logged w)))"
    by (cases err) (simp_all add: r GetContainerList_main_def GetContainerList_def)
  with run have
    "Collect_range_main e cs (w\<lparr>logged := snd (GetContainerList r (logged w))\<rparr>) = (w', oc)"
    by (simp add: Exporter_Collect_main_def)
  with Collect_range_main_eq [of e cs "w\<lparr>logged := snd (GetContainerList r (logged w))\<rparr>"]
  show ?thesis by (simp add: r pass_samples_def)
qed

subsection \<open>Passes over the example records\<close>

lemmas eval_defs =
  Exporter_Collect_def Exporter_Collect_main_def GetContainerList_def
  GetContainerList_main_def Collect_body_def Collect_body_main_def slice_index_def
  MustNewConstMetric_def NewExporter_def NewDesc_def GetContainerStateValue_unfold
  GetContainerVersion_def strings_TrimPrefix_def strings_HasPrefix_def pass_samples_def

lemma run_two_records:
  "Exporter_Collect NewExporter ([web_container, db_container], None) empty_world =
     (\<lparr>sent = [web_sample, db_sample], logged = []\<rparr>, Returned)"
  by (simp add: eval_defs)

lemma run_two_records_again:
  "Exporter_Collect NewExporter ([web_container, db_container], None)
     \<lparr>sent = [web_sample, db_sample], logged = []\<rparr> =
     (\<lparr>sent = [web_sample, db_sample, web_sample, db_sample], logged = []\<rparr>, Returned)"
  by (simp add: eval_defs)

lemma run_two_records_main:
  "Exporter_Collect_main NewExporter (None, [web_container, db_container], None) empty_world =
     (\<lparr>sent = [web_sample\<lparr>val := 0\<rparr>, db_sample\<lparr>val := 0\<rparr>],
       logged = [Println web_container, Println db_container]\<rparr>, Returned)"
  by (simp add: eval_defs)

subsection \<open>Name normalisation\<close>

lemma range_samples_reaches:
  "i < length cs \<Longrightarrow> (\<forall>j \<le> i. \<exists>m. Collect_body e (cs ! j) = Inr m) \<Longrightarrow>
   i < length (range_samples e cs)"
proof (induction cs arbitrary: i)
  case Nil
  then show ?case by simp
next
  case (Cons info rest)
  from Cons.prems(2) have "\<exists>m. Collect_body e ((info # rest) ! 0) = Inr m" by blast
  then obtain m where m: "Collect_body e info = Inr m" by auto
  show ?case
  proof (cases i)
    case 0
    with m show ?thesis by simp
  next
    case (Suc k)
    with Cons.prems(1) have k: "k < length rest" by simp
    have "\<forall>j \<le> k. \<exists>m. Collect_body e (rest ! j) = Inr m"
    proof (intro allI impI)
      fix j assume "j \<le> k"
      then have "Suc j \<le> i" using Suc by simp
      with Cons.prems(2) have "\<exists>m. Collect_body e ((info # rest) ! Suc j) = Inr m" by blast
      then show "\<exists>m. Collect_body e (rest ! j) = Inr m" by simp
    qed
    with k have "k < length (range_samples e rest)" by (rule Cons.IH)
    with Suc m show ?thesis by simp
  qed
qed

lemma Collect_record_sample:
  assumes run: "Exporter_Collect NewExporter r w = (w', oc)"
    and i: "i < length (fst r)"
    and names: "\<forall>j \<le> i. Names (fst r ! j) \<noteq> []"
  shows "i < length (pass_samples w w') \<and>
         pass_samples w w' ! i =
           \<lparr>desc = queryDockerStatus NewExporter, valType = GaugeValue,
            val = GetContainerStateValue (State (fst r ! i)),
            labelValues =
              [strings_TrimPrefix (hd (Names (fst r ! i))) ''/'', ID (fst r ! i),
               Image (fst r ! i), Status (fst r ! i), State (fst r ! i),
               GetContainerVersion (Image (fst r ! i))]\<rparr>"
proof -
  have ps: "pass_samples w w' = range_samples NewExporter (fst r)"
    using run by (rule pass_samples_Collect)
  have "\<forall>j \<le> i. \<exists>m. Collect_body NewExporter (fst r ! j) = Inr m"
  proof (intro allI impI)
    fix j assume "j \<le> i"
    with names have "Names (fst r ! j) \<noteq> []" by blast
    then show "\<exists>m. Collect_body NewExporter (fst r ! j) = Inr m"
      by (cases "Names (fst r ! j)") (auto simp: Collect_body_NewExporter)
  qed
  with i have len: "i < length (range_samples NewExporter (fst r))"
    by (rule range_samples_reaches)
  then have body: "Collect_body NewExporter (fst r ! i) = Inr (range_samples NewExporter (fst r) ! i)"
    using range_samples_nth [of i NewExporter "fst r"] by simp
  from names have "Names (fst r ! i) \<noteq> []" by blast
  then obtain name0 more where nm: "Names (fst r ! i) = name0 # more"
    by (cases "Names (fst r ! i)") auto
  with body len show ?thesis
    by (simp add: ps Collect_body_NewExporter)
qed

lemma run_nameless_last:
  "Exporter_Collect NewExporter ([web_container, db_container, nameless_container], None)
     empty_world =
     (\<lparr>sent = [web_sample, db_sample], logged = []\<rparr>, Panicked (IndexOutOfRange 0 0))"
  by (simp add: eval_defs)

text \<open>
  C9. Record first: for every record of the list that has a declared name and is
  reached by the loop (the records before it have a name too), the pass emits a sample
  at the record's position, and its label at the position of \<open>name\<close> is the
  record's first declared name with one leading \<open>/\<close> removed, if it has one. A
  record whose first name is \<open>/my-container\<close> yields the label \<open>my-container\<close>,
  and one whose first name is \<open>my-container\<close> yields it unchanged. Sample first:
  every sample the pass emits comes from the record at its position, which has a first
  name, and carries that name trimmed. Trimming removes exactly one \<open>/\<close>: of two
  leading \<open>/\<close> only the first goes.
\<close>

theorem Collect_name_label_trimmed:
  "(Exporter_Collect NewExporter r w = (w', oc) \<and> i < length (fst r) \<and>
    (\<forall>j \<le> i. Names (fst r ! j) \<noteq> []) \<longrightarrow>
      i < length (pass_samples w w') \<and>
      variableLabels (desc (pass_samples w w' ! i)) ! 0 = ''name'' \<and>
      labelValues (pass_samples w w' ! i) ! 0 =
        strings_TrimPrefix (hd (Names (fst r ! i))) ''/'' \<and>
      (hd (Names (fst r ! i)) = ''/my-container'' \<longrightarrow>
         labelValues (pass_samples w w' ! i) ! 0 = ''my-container'') \<and>
      (hd (Names (fst r ! i)) = ''my-container'' \<longrightarrow>
         labelValues (pass_samples w w' ! i) ! 0 = ''my-container'')) \<and>
   (Exporter_Collect NewExporter r w = (w', oc) \<and> i < length (pass_samples w w') \<longrightarrow>
     (\<exists>name0 more. Names (fst r ! i) = name0 # more \<and>
        variableLabels (desc (pass_samples w w' ! i)) ! 0 = ''name'' \<and>
        labelValues (pass_samples w w' ! i) ! 0 = strings_TrimPrefix name0 ''/'')) \<and>
   (\<forall>s. strings_TrimPrefix s ''/'' =
      (case s of [] \<Rightarrow> [] | c # rest \<Rightarrow> if c = CHR ''/'' then rest else s)) \<and>
   strings_TrimPrefix ''/my-container'' ''/'' = ''my-container'' \<and>
   strings_TrimPrefix ''my-container'' ''/'' = ''my-container'' \<and>
   strings_TrimPrefix ''//my-container'' ''/'' = ''/my-container''"
proof -
  have record_first: "i < length (pass_samples w w') \<and>
      variableLabels (desc (pass_samples w w' ! i)) ! 0 = ''name'' \<and>
      labelValues (pass_samples w w' ! i) ! 0 =
        strings_TrimPrefix (hd (Names (fst r ! i))) ''/'' \<and>
      (hd (Names (fst r ! i)) = ''/my-container'' \<longrightarrow>
         labelValues (pass_samples w w' ! i) ! 0 = ''my-container'') \<and>
      (hd (Names (fst r ! i)) = ''my-container'' \<longrightarrow>
         labelValues (pass_samples w w' ! i) ! 0 = ''my-container'')"
    if hyp: "Exporter_Collect NewExporter r w = (w', oc) \<and> i < length (fst r) \<and>
             (\<forall>j \<le> i. Names (fst r ! j) \<noteq> [])"
  proof -
    from hyp have run: "Exporter_Collect NewExporter r w = (w', oc)"
      and i: "i < length (fst r)" and names: "\<forall>j \<le> i. Names (fst r ! j) \<noteq> []"
      by blast+
    from Collect_record_sample [OF run i names]
    have len: "i < length (pass_samples w w')"
      and lab: "labelValues (pass_samples w w' ! i) ! 0 =
                strings_TrimPrefix (hd (Names (fst r ! i))) ''/''"
      and nm: "variableLabels (desc (pass_samples w w' ! i)) ! 0 = ''name''"
      by (simp_all add: NewExporter_def NewDesc_def)
    from len lab nm show ?thesis
      by (simp add: strings_TrimPrefix_def strings_HasPrefix_def)
  qed
  have sample_first: "\<exists>name0 more. Names (fst r ! i) = name0 # more \<and>
        variableLabels (desc (pass_samples w w' ! i)) ! 0 = ''name'' \<and>
        labelValues (pass_samples w w' ! i) ! 0 = strings_TrimPrefix name0 ''/''"
    if hyp: "Exporter_Collect NewExporter r w = (w', oc) \<and> i < length (pass_samples w w')"
  proof -
    from hyp have run: "Exporter_Collect NewExporter r w = (w', oc)"
      and i: "i < length (pass_samples w w')"
      by blast+
    have ps: "pass_samples w w' = range_samples NewExporter (fst r)"
      using run by (rule pass_samples_Collect)
    with i have body: "Collect_body NewExporter (fst r ! i) = Inr (pass_samples w w' ! i)"
      using range_samples_nth [of i NewExporter "fst r"] by simp
    then obtain name0 more where nm: "Names (fst r ! i) = name0 # more"
      by (cases "Names (fst r ! i)") (auto simp: Collect_body_NewExporter)
    with body have m: "pass_samples w w' ! i =
        \<lparr>desc = queryDockerStatus NewExporter, valType = GaugeValue,
         val = GetContainerStateValue (State (fst r ! i)),
         labelValues =
           [strings_TrimPrefix name0 ''/'', ID (fst r ! i), Image (fst r ! i),
            Status (fst r ! i), State (fst r ! i), GetContainerVersion (Image (fst r ! i))]\<rparr>"
      by (simp add: Collect_body_NewExporter)
    have "variableLabels (desc (pass_samples w w' ! i)) ! 0 = ''name'' \<and>
          labelValues (pass_samples w w' ! i) ! 0 = strings_TrimPrefix name0 ''/''"
      unfolding m by (simp add: NewExporter_def NewDesc_def)
    with nm show ?thesis by blast
  qed
  have trim: "\<forall>s. strings_TrimPrefix s ''/'' =
      (case s of [] \<Rightarrow> [] | c # rest \<Rightarrow> if c = CHR ''/'' then rest else s)"
    by (simp add: strings_TrimPrefix_slash)
  have ex: "strings_TrimPrefix ''/my-container'' ''/'' = ''my-container'' \<and>
   strings_TrimPrefix ''my-container'' ''/'' = ''my-container'' \<and>
   strings_TrimPrefix ''//my-container'' ''/'' = ''/my-container''"
    by (simp add: strings_TrimPrefix_def strings_HasPrefix_def)
  from record_first sample_first trim ex show ?thesis by blast
qed

theorem Collect_name_label_trimmed_witness:
  "Exporter_Collect NewExporter ([web_container, db_container, nameless_container], None)
     empty_world =
     (\<lparr>sent = [web_sample, db_sample], logged = []\<rparr>, Panicked (IndexOutOfRange 0 0)) \<and>
   Names web_container = [''/my-container''] \<and>
   Names db_container = [''my-container'', ''/alias''] \<and>
   length (pass_samples empty_world \<lparr>sent = [web_sample, db_sample], logged = []\<rparr>) = 2 \<and>
   labelValues
     (pass_samples empty_world \<lparr>sent = [web_sample, db_sample], logged = []\<rparr> ! 0) ! 0 =
     ''my-container'' \<and>
   labelValues
     (pass_samples empty_world \<lparr>sent = [web_sample, db_sample], logged = []\<rparr> ! 1) ! 0 =
     ''my-container''"
proof -
  have n0: "\<forall>j \<le> (0::nat).
      Names (fst ([web_container, db_container, nameless_container], None :: error option) ! j) \<noteq> []"
    by simp
  have n1: "\<forall>j \<le> (1::nat).
      Names (fst ([web_container, db_container, nameless_container], None :: error option) ! j) \<noteq> []"
    by (simp add: le_Suc_eq)
  show ?thesis
    using Collect_name_label_trimmed [of "([web_container, db_container, nameless_container], None)" empty_world
        "\<lparr>sent = [web_sample, db_sample], logged = []\<rparr>" "Panicked (IndexOutOfRange 0 0)" 0]
      Collect_name_label_trimmed [of "([web_container, db_container, nameless_container], None)" empty_world
        "\<lparr>sent = [web_sample, db_sample], logged = []\<rparr>" "Panicked (IndexOutOfRange 0 0)" 1]
      run_nameless_last n0 n1
    by (simp add: pass_samples_def)
qed

subsection \<open>Records without a declared name\<close>

text \<open>
  C3. A record whose list of declared names is empty does not degrade to an empty name
  label: the body indexes \<open>Names[0]\<close> without a check, the index panics, nothing is
  sent for the record and the pass does not return, in either variant. (A reference
  with no \<open>:\<close> in it does degrade to the empty version label, as the lemma on
  references without a colon says; a reference whose only \<open>:\<close> is a registry port
  does not, see C2.)
\<close>

theorem Collect_empty_Names_panics:
  "Exporter_Collect NewExporter ([nameless_container], None) empty_world =
     (empty_world, Panicked (IndexOutOfRange 0 0)) \<and>
   Exporter_Collect_main NewExporter (None, [nameless_container], None) empty_world =
     (\<lparr>sent = [], logged = [Println nameless_container]\<rparr>, Panicked (IndexOutOfRange 0 0))"
  by (simp add: eval_defs)

text \<open>
  C5. One sample per record, in the gateway's order, holds for lists whose records all
  have a declared name (the lemma on one sample per record, above), and the empty list
  gives no sample and returns. It does not hold for every list: at the first record
  without a name the pass panics, and that record and all the records after it get no
  sample. Here three records give one sample.
\<close>

theorem Collect_stops_at_nameless_record:
  "Exporter_Collect NewExporter ([web_container, nameless_container, db_container], None)
     empty_world =
     (\<lparr>sent = [web_sample], logged = []\<rparr>, Panicked (IndexOutOfRange 0 0)) \<and>
   Exporter_Collect NewExporter ([], None) empty_world = (empty_world, Returned)"
  by (simp add: eval_defs)

subsection \<open>A failed list call\<close>

text \<open>
  C4, as the code has it. When the list call returns an error and no containers, the
  gateway returns the empty sequence and logs the error, and the pass returns with no
  sample sent. The gateway does not clear what the call returned: with an error, it
  hands back the sequence the client returned with it, whatever it is.
\<close>

theorem GetContainerList_error_empty:
  "GetContainerList ([], Some err) lg = ([], lg @ [ConnectErr err]) \<and>
   Exporter_Collect e ([], Some err) w =
     (w\<lparr>logged := logged w @ [ConnectErr err]\<rparr>, Returned) \<and>
   pass_samples w (fst (Exporter_Collect e ([], Some err) w)) = [] \<and>
   GetContainerList (cs, Some err) lg = (cs, lg @ [ConnectErr err])"
  by (simp add: Exporter_Collect_def GetContainerList_def pass_samples_def)

text \<open>
  C4 as the specification words it, an empty sequence and zero samples on every
  error of the list call, fails when the client returns containers together with its
  error, which the pair it returns allows: the gateway does not clear the slice, it
  returns the containers and the pass emits their samples.
\<close>

theorem GetContainerList_error_nonempty_counterexample:
  "GetContainerList ([web_container], Some (Error ''json: cannot unmarshal'')) [] =
     ([web_container], [ConnectErr (Error ''json: cannot unmarshal'')]) \<and>
   Exporter_Collect NewExporter ([web_container], Some (Error ''json: cannot unmarshal''))
     empty_world =
     (\<lparr>sent = [web_sample], logged = [ConnectErr (Error ''json: cannot unmarshal'')]\<rparr>,
      Returned) \<and>
   pass_samples empty_world
     (fst (Exporter_Collect NewExporter
        ([web_container], Some (Error ''json: cannot unmarshal'')) empty_world)) \<noteq> []"
  by (simp add: eval_defs)

subsection \<open>Two consecutive passes\<close>

text \<open>
  C7. Two consecutive passes over the same response of the gateway emit the same
  samples, with the same labels and the same ordinals in the same order, and end in the
  same way: the second pass starts in the world the first one left, and still adds to the
  channel exactly what the first one added. More generally the samples and the outcome
  of a pass do not depend on the world the pass starts in, only on the exporter and on
  what the gateway returns.
\<close>

theorem Collect_twice_same_samples:
  "(Exporter_Collect e r w = (w1, o1) \<and> Exporter_Collect e r w1 = (w2, o2) \<longrightarrow>
      pass_samples w1 w2 = pass_samples w w1 \<and> o2 = o1) \<and>
   pass_samples wa (fst (Exporter_Collect e r wa)) =
     pass_samples wb (fst (Exporter_Collect e r wb)) \<and>
   snd (Exporter_Collect e r wa) = snd (Exporter_Collect e r wb)"
proof (intro conjI impI)
  assume runs: "Exporter_Collect e r w = (w1, o1) \<and> Exporter_Collect e r w1 = (w2, o2)"
  then have run1: "Exporter_Collect e r w = (w1, o1)"
    and run2: "Exporter_Collect e r w1 = (w2, o2)"
    by blast+
  have "pass_samples w w1 = range_samples e (fst r)"
    using run1 by (rule pass_samples_Collect)
  moreover have "pass_samples w1 w2 = range_samples e (fst r)"
    using run2 by (rule pass_samples_Collect)
  ultimately show "pass_samples w1 w2 = pass_samples w w1" by simp
  have "o1 = range_outcome e (fst r)"
    using run1 by (rule outcome_Collect)
  moreover have "o2 = range_outcome e (fst r)"
    using run2 by (rule outcome_Collect)
  ultimately show "o2 = o1" by simp
next
  show "pass_samples wa (fst (Exporter_Collect e r wa)) =
        pass_samples wb (fst (Exporter_Collect e r wb))"
    by (simp only: pass_samples_Collect_fst)
  show "snd (Exporter_Collect e r wa) = snd (Exporter_Collect e r wb)"
    by (simp only: Collect_eq snd_conv)
qed

theorem Collect_twice_same_samples_witness:
  "Exporter_Collect NewExporter ([web_container, db_container], None) empty_world =
     (\<lparr>sent = [web_sample, db_sample], logged = []\<rparr>, Returned) \<and>
   Exporter_Collect NewExporter ([web_container, db_container], None)
     \<lparr>sent = [web_sample, db_sample], logged = []\<rparr> =
     (\<lparr>sent = [web_sample, db_sample, web_sample, db_sample], logged = []\<rparr>, Returned) \<and>
   pass_samples \<lparr>sent = [web_sample, db_sample], logged = []\<rparr>
     \<lparr>sent = [web_sample, db_sample, web_sample, db_sample], logged = []\<rparr> =
   pass_samples empty_world \<lparr>sent = [web_sample, db_sample], logged = []\<rparr> \<and>
   pass_samples empty_world \<lparr>sent = [web_sample, db_sample], logged = []\<rparr> =
     [web_sample, db_sample]"
  using Collect_twice_same_samples [of NewExporter "([web_container, db_container], None)"
      empty_world "\<lparr>sent = [web_sample, db_sample], logged = []\<rparr>" Returned
      "\<lparr>sent = [web_sample, db_sample, web_sample, db_sample], logged = []\<rparr>" Returned]
    run_two_records run_two_records_again
  by (simp add: pass_samples_def)

subsection \<open>The two variants of Collect\<close>

text \<open>
  C8. The two variants are not equivalent. On the same response of the list call (the
  variant of \<open>main.go\<close> having made its client) they end in the same way and emit
  samples with the same descriptor and the same label values in the same order; every
  sample of the variant of \<open>main.go\<close> has the value 0, the \<open>i\<close>-th sample of the
  other has the State Mapper's ordinal of the state of the \<open>i\<close>-th record, and the two
  values differ at every sample, since no ordinal is below 0.1.
\<close>

theorem Collect_main_differs_in_value_only:
  "(Exporter_Collect e r w = (w1, o1) \<and> Exporter_Collect_main e (None, r) w = (w2, o2) \<longrightarrow>
      o2 = o1 \<and>
      map desc (pass_samples w w2) = map desc (pass_samples w w1) \<and>
      map valType (pass_samples w w2) = map valType (pass_samples w w1) \<and>
      map labelValues (pass_samples w w2) = map labelValues (pass_samples w w1) \<and>
      (\<forall>m \<in> set (pass_samples w w2). val m = 0) \<and>
      (\<forall>i < length (pass_samples w w1).
          val (pass_samples w w1 ! i) = GetContainerStateValue (State (fst r ! i)) \<and>
          val (pass_samples w w1 ! i) \<noteq> val (pass_samples w w2 ! i))) \<and>
   (\<forall>s. 0.1 \<le> GetContainerStateValue s \<and> GetContainerStateValue s \<noteq> 0)"
proof (intro conjI impI)
  assume runs:
    "Exporter_Collect e r w = (w1, o1) \<and> Exporter_Collect_main e (None, r) w = (w2, o2)"
  then have run1: "Exporter_Collect e r w = (w1, o1)"
    and run2: "Exporter_Collect_main e (None, r) w = (w2, o2)"
    by blast+
  have s1: "pass_samples w w1 = range_samples e (fst r)"
    using run1 by (rule pass_samples_Collect)
  have out1: "o1 = range_outcome e (fst r)"
    using run1 by (rule outcome_Collect)
  have s2: "pass_samples w w2 = map (\<lambda>m. m\<lparr>val := 0\<rparr>) (range_samples e (fst r))"
    and out2: "o2 = range_outcome e (fst r)"
    using Collect_main_eq [OF run2] by blast+
  show "o2 = o1" by (simp add: out1 out2)
  show "map desc (pass_samples w w2) = map desc (pass_samples w w1)"
    by (simp add: s1 s2 comp_def)
  show "map valType (pass_samples w w2) = map valType (pass_samples w w1)"
    by (simp add: s1 s2 comp_def)
  show "map labelValues (pass_samples w w2) = map labelValues (pass_samples w w1)"
    by (simp add: s1 s2 comp_def)
  show "\<forall>m \<in> set (pass_samples w w2). val m = 0"
    by (auto simp: s2)
  show "\<forall>i < length (pass_samples w w1).
          val (pass_samples w w1 ! i) = GetContainerStateValue (State (fst r ! i)) \<and>
          val (pass_samples w w1 ! i) \<noteq> val (pass_samples w w2 ! i)"
  proof (intro allI impI)
    fix i assume i: "i < length (pass_samples w w1)"
    then have "Collect_body e (fst r ! i) = Inr (pass_samples w w1 ! i)"
      using range_samples_nth [of i e "fst r"] by (simp add: s1)
    then have v: "val (pass_samples w w1 ! i) = GetContainerStateValue (State (fst r ! i))"
      by (rule Collect_body_val)
    have "val (pass_samples w w2 ! i) = 0"
      using i by (simp add: s1 s2)
    with v show "val (pass_samples w w1 ! i) = GetContainerStateValue (State (fst r ! i)) \<and>
          val (pass_samples w w1 ! i) \<noteq> val (pass_samples w w2 ! i)"
      by (simp add: GetContainerStateValue_unfold)
  qed
next
  show "\<forall>s. 0.1 \<le> GetContainerStateValue s \<and> GetContainerStateValue s \<noteq> 0"
    by (simp add: GetContainerStateValue_unfold)
qed

theorem Collect_main_differs_in_value_only_witness:
  "Exporter_Collect NewExporter ([web_container, db_container], None) empty_world =
     (\<lparr>sent = [web_sample, db_sample], logged = []\<rparr>, Returned) \<and>
   Exporter_Collect_main NewExporter (None, [web_container, db_container], None) empty_world =
     (\<lparr>sent = [web_sample\<lparr>val := 0\<rparr>, db_sample\<lparr>val := 0\<rparr>],
       logged = [Println web_container, Println db_container]\<rparr>, Returned) \<and>
   map labelValues [web_sample\<lparr>val := 0\<rparr>, db_sample\<lparr>val := 0\<rparr>] =
     map labelValues [web_sample, db_sample] \<and>
   map val [web_sample\<lparr>val := 0\<rparr>, db_sample\<lparr>val := 0\<rparr>] = [0, 0] \<and>
   map val [web_sample, db_sample] = [1, 0.6]"
  using Collect_main_differs_in_value_only [of NewExporter
      "([web_container, db_container], None)" empty_world
      "\<lparr>sent = [web_sample, db_sample], logged = []\<rparr>" Returned
      "\<lparr>sent = [web_sample\<lparr>val := 0\<rparr>, db_sample\<lparr>val := 0\<rparr>],
        logged = [Println web_container, Println db_container]\<rparr>" Returned]
    run_two_records run_two_records_main
  by (simp add: pass_samples_def)

end
